theory Spec2Isabelle
  imports Main "HOL-Library.Sublist"
begin

section \<open>The collaborators of the middleware\<close>

text \<open>
  \<^verbatim>\<open>django_pymodsecurity/middleware.py\<close> wraps a Django handler with the ModSecurity
  engine. The engine, Django and the file system are not part of the repository: the
  middleware only calls them. Each of them is a parameter of the model, and every
  theorem below holds for all values of these parameters.
\<close>

subsection \<open>The logger\<close>

datatype level = INFO | WARNING

type_synonym log_record = "level \<times> string"

subsection \<open>The engine: rules\<close>

text \<open>
  The calls the middleware makes on its \<^verbatim>\<open>ModSecurity.Rules\<close> object. The object is
  stateful, so the model keeps the history of the calls made on it, and the engine
  answers from the history: \<open>load_count\<close> is the integer returned by the last call of
  the history, \<open>getParserError\<close> the text of \<^verbatim>\<open>rules.getParserError()\<close> after it.
\<close>

datatype load = LoadFromUri string | Load string

subsection \<open>The engine: transactions\<close>

text \<open>
  \<^verbatim>\<open>ModSecurity.ModSecurityIntervention\<close>, as \<^verbatim>\<open>process_intervention\<close> reads it after
  \<^verbatim>\<open>transaction.intervention(intervention)\<close> has filled it. \<open>disruptive\<close> is read
  through its truth value only.
\<close>

record ModSecurityIntervention =
  status :: int
  url :: "string option"
  log :: "string option"
  disruptive :: bool

text \<open>
  What happens during one request, in order: the calls made on the request's
  \<^verbatim>\<open>ModSecurity.Transaction\<close>, and the invocation of the wrapped handler
  (\<open>GetResponse\<close>). A transaction starts with the empty history.
\<close>

datatype event =
    ProcessConnection string int string int
  | ProcessURI string string string
  | AddRequestHeader string string
  | ProcessRequestHeaders
  | AppendRequestBody string
  | ProcessRequestBody
  | GetResponse
  | AddResponseHeader string string
  | ProcessResponseHeaders int string
  | AppendResponseBody string
  | ProcessResponseBody
  | Intervention

text \<open>
  The engine is deterministic in the history of calls. \<open>intervention\<close> is the answer
  of \<^verbatim>\<open>transaction.intervention(intervention)\<close>, the last call of the history: \<open>None\<close>
  when the call returns a false value, \<open>Some iv\<close> when it returns a true one and leaves
  \<open>iv\<close> in the intervention object. \<open>serverLog\<close> lists the messages the engine hands to
  the callback registered with \<^verbatim>\<open>setServerLogCb\<close> while it runs the last call of the
  history. An engine that looks at the transaction's calls only is one whose answers do
  not depend on \<open>GetResponse\<close>.
\<close>

record engine =
  load_count :: "load list \<Rightarrow> int"
  getParserError :: "load list \<Rightarrow> string"
  intervention :: "event list \<Rightarrow> ModSecurityIntervention option"
  serverLog :: "event list \<Rightarrow> string list"

subsection \<open>Python, the file system and Django\<close>

datatype py_error = KeyError string | ValueError string

text \<open>
  \<open>py_int\<close> is Python's \<^verbatim>\<open>int()\<close> on a string (\<open>None\<close>: it raises ValueError),
  \<open>glob\<close> is \<^verbatim>\<open>glob.glob(pattern, recursive=True)\<close>. Responses are Django's objects, of
  a type \<open>'resp\<close> the model does not look into: \<open>HttpResponse s\<close> is
  \<^verbatim>\<open>HttpResponse(status=s)\<close>, built from a status alone, \<open>HttpResponseRedirect u\<close> is
  \<^verbatim>\<open>HttpResponseRedirect(u)\<close>, and \<open>items\<close>, \<open>status_code\<close> and \<open>getvalue\<close> are what
  \<^verbatim>\<open>process_response\<close> reads of the handler's response.
\<close>

record 'resp host =
  py_int :: "string \<Rightarrow> int option"
  glob :: "string \<Rightarrow> string list"
  HttpResponse :: "int \<Rightarrow> 'resp"
  HttpResponseRedirect :: "string \<Rightarrow> 'resp"
  items :: "'resp \<Rightarrow> (string \<times> string) list"
  status_code :: "'resp \<Rightarrow> int"
  getvalue :: "'resp \<Rightarrow> string"

text \<open>
  A request: \<open>META\<close> is the dictionary \<^verbatim>\<open>request.META\<close> in its iteration order (keys
  are distinct), \<open>get_port\<close> the string \<^verbatim>\<open>request.get_port()\<close> returns.
\<close>

record request =
  META :: "(string \<times> string) list"
  get_port :: string
  path :: string
  http_method :: string
  body :: string

text \<open>A Django setting read by \<^verbatim>\<open>__init__\<close>: absent, a string, or a list of strings.\<close>

datatype setting = PyNone | PyStr string | PyList "string list"

record settings =
  MODSECURITY_RULE_FILES :: setting
  MODSECURITY_RULES :: setting

section \<open>The middleware object\<close>

text \<open>
  The attributes of \<^verbatim>\<open>PyModSecurityMiddleware\<close>: \<open>priv_rules_count\<close> is
  \<^verbatim>\<open>_rules_count\<close>, \<open>rules\<close> the history of the \<^verbatim>\<open>ModSecurity.Rules\<close> object, \<open>logger\<close>
  the records written to the logger so far.
\<close>

record 'resp middleware =
  get_response :: "request \<Rightarrow> 'resp"
  rules :: "load list"
  rule_files :: "string list option"
  rule_lines :: "string option"
  priv_rules_count :: int
  logger :: "log_record list"

definition rules_count :: "'resp middleware \<Rightarrow> int" where
  "rules_count mw = priv_rules_count mw"

definition warning :: "string \<Rightarrow> 'resp middleware \<Rightarrow> 'resp middleware" where
  "warning msg mw = mw\<lparr>logger := logger mw @ [(WARNING, msg)]\<rparr>"

definition info :: "string \<Rightarrow> 'resp middleware \<Rightarrow> 'resp middleware" where
  "info msg mw = mw\<lparr>logger := logger mw @ [(INFO, msg)]\<rparr>"

subsection \<open>Loading rules\<close>

definition rule_file_msg :: "string \<Rightarrow> string \<Rightarrow> string" where
  "rule_file_msg rule_file err =
     ''[ModSecurity] Error trying to load rule file '' @ rule_file @ ''. '' @ err"

definition rules_msg :: "string \<Rightarrow> string" where
  "rules_msg err = ''[ModSecurity] Error trying to load rules: '' @ err"

text \<open>The body of the inner loop of \<^verbatim>\<open>load_rule_files\<close>, for one file.\<close>

definition load_rule_file :: "engine \<Rightarrow> string \<Rightarrow> 'resp middleware \<Rightarrow> 'resp middleware" where
  "load_rule_file eng rule_file mw =
     (let mw1 = mw\<lparr>rules := rules mw @ [LoadFromUri rule_file]\<rparr>;
          rules_count = load_count eng (rules mw1)
      in if rules_count < 0
         then warning (rule_file_msg rule_file (getParserError eng (rules mw1))) mw1
         else mw1\<lparr>priv_rules_count := priv_rules_count mw1 + rules_count\<rparr>)"

text \<open>The inner loop: the files one pattern expands to.\<close>

fun load_paths :: "engine \<Rightarrow> string list \<Rightarrow> 'resp middleware \<Rightarrow> 'resp middleware" where
  "load_paths eng [] mw = mw"
| "load_paths eng (rule_file # rest) mw = load_paths eng rest (load_rule_file eng rule_file mw)"

text \<open>The outer loop: the patterns.\<close>

fun load_patterns ::
  "'resp host \<Rightarrow> engine \<Rightarrow> string list \<Rightarrow> 'resp middleware \<Rightarrow> 'resp middleware" where
  "load_patterns h eng [] mw = mw"
| "load_patterns h eng (pattern # rest) mw =
     load_patterns h eng rest (load_paths eng (glob h pattern) mw)"

definition load_rule_files ::
  "'resp host \<Rightarrow> engine \<Rightarrow> string list \<Rightarrow> 'resp middleware \<Rightarrow> int \<times> 'resp middleware" where
  "load_rule_files h eng files mw =
     (let before_count = rules_count mw;
          mw' = load_patterns h eng files mw
      in (rules_count mw' - before_count, mw'))"

definition load_rules ::
  "engine \<Rightarrow> string option \<Rightarrow> 'resp middleware \<Rightarrow> int \<times> 'resp middleware" where
  "load_rules eng text mw =
     (case text of
        None \<Rightarrow> (0, mw)
      | Some t \<Rightarrow>
          if int (length t) \<le> 0 then (0, mw)
          else
            let mw1 = mw\<lparr>rules := rules mw @ [Load t]\<rparr>;
                rules_count = load_count eng (rules mw1)
            in if rules_count < 0
               then (rules_count, warning (rules_msg (getParserError eng (rules mw1))) mw1)
               else (rules_count, mw1\<lparr>priv_rules_count := priv_rules_count mw1 + rules_count\<rparr>))"

subsection \<open>Construction\<close>

text \<open>\<^verbatim>\<open>'\n'.join(lines)\<close>\<close>

fun join_newline :: "string list \<Rightarrow> string" where
  "join_newline [] = []"
| "join_newline [l] = l"
| "join_newline (l # ls) = l @ [CHR 0x0A] @ join_newline ls"

definition init ::
  "'resp host \<Rightarrow> engine \<Rightarrow> settings \<Rightarrow> (request \<Rightarrow> 'resp) \<Rightarrow> 'resp middleware" where
  "init h eng st handler =
     (let files = (case MODSECURITY_RULE_FILES st of
                     PyNone \<Rightarrow> None
                   | PyStr s \<Rightarrow> Some [s]
                   | PyList ps \<Rightarrow> Some ps);
          lines = (case MODSECURITY_RULES st of
                     PyNone \<Rightarrow> None
                   | PyStr s \<Rightarrow> Some s
                   | PyList ls \<Rightarrow> Some (join_newline ls));
          mw0 = \<lparr>get_response = handler, rules = [], rule_files = files,
                 rule_lines = lines, priv_rules_count = 0, logger = []\<rparr>;
          mw1 = (case files of
                   None \<Rightarrow> mw0
                 | Some fs \<Rightarrow> snd (load_rule_files h eng fs mw0));
          mw2 = (case lines of
                   None \<Rightarrow> mw1
                 | Some t \<Rightarrow> snd (load_rules eng (Some t) mw1))
      in mw2)"

section \<open>Processing a request\<close>

text \<open>
  The state while a request is processed: the history of the request's transaction
  and the middleware object.
\<close>

type_synonym 'resp state = "event list \<times> 'resp middleware"

text \<open>\<^verbatim>\<open>modsecurity_log_callback\<close>\<close>

definition modsecurity_log_callback :: "string \<Rightarrow> 'resp middleware \<Rightarrow> 'resp middleware" where
  "modsecurity_log_callback msg mw = info msg mw"

text \<open>
  One call on the transaction: the call joins the history, and the messages the engine
  emits while it runs go through the callback.
\<close>

definition call :: "engine \<Rightarrow> event \<Rightarrow> 'resp state \<Rightarrow> 'resp state" where
  "call eng e s =
     (case s of (tr, mw) \<Rightarrow>
        (tr @ [e], fold modsecurity_log_callback (serverLog eng (tr @ [e])) mw))"

definition process_intervention ::
  "'resp host \<Rightarrow> engine \<Rightarrow> 'resp state \<Rightarrow> 'resp option \<times> 'resp state" where
  "process_intervention h eng s =
     (case call eng Intervention s of (tr, mw) \<Rightarrow>
        (case intervention eng tr of
           None \<Rightarrow> (None, (tr, mw))
         | Some iv \<Rightarrow>
             let mw1 = (case log iv of None \<Rightarrow> mw | Some l \<Rightarrow> info l mw)
             in if \<not> disruptive iv then (None, (tr, mw1))
                else (Some (case url iv of
                              Some u \<Rightarrow> HttpResponseRedirect h u
                            | None \<Rightarrow> HttpResponse h (status iv)),
                      (tr, mw1))))"

text \<open>\<^verbatim>\<open>_iter_headers\<close>: the keys that start with \<^verbatim>\<open>HTTP_\<close>, without the prefix.\<close>

definition iter_headers :: "request \<Rightarrow> (string \<times> string) list" where
  "iter_headers req =
     map (\<lambda>(key, v). (drop 5 key, v)) (filter (\<lambda>(key, v). take 5 key = ''HTTP_'') (META req))"

text \<open>\<^verbatim>\<open>meta[key]\<close> and \<^verbatim>\<open>int(s)\<close>, with their exceptions.\<close>

definition meta_get :: "request \<Rightarrow> string \<Rightarrow> py_error + string" where
  "meta_get req key = (case map_of (META req) key of None \<Rightarrow> Inl (KeyError key) | Some v \<Rightarrow> Inr v)"

definition to_int :: "'resp host \<Rightarrow> string \<Rightarrow> py_error + int" where
  "to_int h s = (case py_int h s of None \<Rightarrow> Inl (ValueError s) | Some n \<Rightarrow> Inr n)"

text \<open>
  The arguments of \<^verbatim>\<open>processConnection\<close>, evaluated from left to right before the call;
  the first exception ends \<^verbatim>\<open>process_request\<close>.
\<close>

definition connection_args :: "'resp host \<Rightarrow> request \<Rightarrow> py_error + event" where
  "connection_args h req =
     (case meta_get req ''REMOTE_ADDR'' of Inl e \<Rightarrow> Inl e | Inr addr \<Rightarrow>
     (case to_int h (get_port req) of Inl e \<Rightarrow> Inl e | Inr port \<Rightarrow>
     (case meta_get req ''SERVER_NAME'' of Inl e \<Rightarrow> Inl e | Inr name \<Rightarrow>
     (case meta_get req ''SERVER_PORT'' of Inl e \<Rightarrow> Inl e | Inr sp \<Rightarrow>
     (case to_int h sp of Inl e \<Rightarrow> Inl e | Inr sport \<Rightarrow>
        Inr (ProcessConnection addr port name sport))))))"

definition process_request ::
  "'resp host \<Rightarrow> engine \<Rightarrow> request \<Rightarrow> 'resp state \<Rightarrow> (py_error + 'resp option) \<times> 'resp state" where
  "process_request h eng req s =
     (case connection_args h req of
        Inl e \<Rightarrow> (Inl e, s)
      | Inr conn \<Rightarrow>
     (case process_intervention h eng (call eng conn s) of
        (Some response, s1) \<Rightarrow> (Inr (Some response), s1)
      | (None, s1) \<Rightarrow>
     (case process_intervention h eng (call eng (ProcessURI (path req) (http_method req) ''1.1'') s1) of
        (Some response, s2) \<Rightarrow> (Inr (Some response), s2)
      | (None, s2) \<Rightarrow>
     (case process_intervention h eng
             (call eng ProcessRequestHeaders
                (fold (\<lambda>(key, v). call eng (AddRequestHeader key v)) (iter_headers req) s2)) of
        (Some response, s3) \<Rightarrow> (Inr (Some response), s3)
      | (None, s3) \<Rightarrow>
     (case process_intervention h eng
             (call eng ProcessRequestBody (call eng (AppendRequestBody (body req)) s3)) of
        (response, s4) \<Rightarrow> (Inr response, s4))))))"

definition process_response ::
  "'resp host \<Rightarrow> engine \<Rightarrow> request \<Rightarrow> 'resp \<Rightarrow> 'resp state \<Rightarrow> 'resp \<times> 'resp state" where
  "process_response h eng req original_response s =
     (case process_intervention h eng
             (call eng (ProcessResponseHeaders (status_code h original_response) ''HTTP/1.1'')
                (fold (\<lambda>(field, v). call eng (AddResponseHeader field v))
                   (items h original_response) s)) of
        (Some response, s1) \<Rightarrow> (response, s1)
      | (None, s1) \<Rightarrow>
     (case process_intervention h eng
             (call eng ProcessResponseBody
                (call eng (AppendResponseBody (getvalue h original_response)) s1)) of
        (Some response, s2) \<Rightarrow> (response, s2)
      | (None, s2) \<Rightarrow> (original_response, s2)))"

text \<open>
  \<^verbatim>\<open>__call__\<close>: a new transaction, the request side, the handler, the response side.
  The result is the response returned (or the exception raised), with the history of
  the transaction and the middleware object after the call.
\<close>

definition middleware_call ::
  "'resp host \<Rightarrow> engine \<Rightarrow> 'resp middleware \<Rightarrow> request \<Rightarrow> (py_error + 'resp) \<times> 'resp state" where
  "middleware_call h eng mw req =
     (case process_request h eng req ([], mw) of
        (Inl e, s) \<Rightarrow> (Inl e, s)
      | (Inr (Some response), s) \<Rightarrow> (Inr response, s)
      | (Inr None, (tr, mw1)) \<Rightarrow>
          (case process_response h eng req (get_response mw1 req) (tr @ [GetResponse], mw1) of
             (response, s2) \<Rightarrow> (Inr response, s2)))"

section \<open>Vocabulary of the statements\<close>

subsection \<open>Loading\<close>

text \<open>The files a list of patterns expands to, in the order of the two loops.\<close>

definition expand :: "'resp host \<Rightarrow> string list \<Rightarrow> string list" where
  "expand h patterns = concat (map (glob h) patterns)"

text \<open>
  What the engine answers when the files \<open>ps\<close> are loaded one after the other on a
  rules object with history \<open>hist\<close>: for each file its path, the count returned and the
  parser error text after the load.
\<close>

fun attempts :: "engine \<Rightarrow> load list \<Rightarrow> string list \<Rightarrow> (string \<times> int \<times> string) list" where
  "attempts eng hist [] = []"
| "attempts eng hist (p # ps) =
     (p, load_count eng (hist @ [LoadFromUri p]), getParserError eng (hist @ [LoadFromUri p]))
       # attempts eng (hist @ [LoadFromUri p]) ps"

definition failed :: "(string \<times> int \<times> string) list \<Rightarrow> (string \<times> int \<times> string) list" where
  "failed as = filter (\<lambda>(p, c, e). c < 0) as"

definition loaded :: "(string \<times> int \<times> string) list \<Rightarrow> (string \<times> int \<times> string) list" where
  "loaded as = filter (\<lambda>(p, c, e). \<not> c < 0) as"

definition added :: "(string \<times> int \<times> string) list \<Rightarrow> int" where
  "added as = sum_list (map (\<lambda>(p, c, e). c) (loaded as))"

text \<open>
  The rules gained by the loads \<open>ls\<close> made on a rules object with history \<open>hist\<close>: the
  sum of the counts of the loads the engine accepted.
\<close>

fun gained :: "engine \<Rightarrow> load list \<Rightarrow> load list \<Rightarrow> int" where
  "gained eng hist [] = 0"
| "gained eng hist (l # ls) =
     (if load_count eng (hist @ [l]) < 0 then 0 else load_count eng (hist @ [l]))
       + gained eng (hist @ [l]) ls"

text \<open>The operations on a middleware object after its construction.\<close>

datatype operation = LoadRuleFiles "string list" | LoadRules "string option" | Call request

definition step :: "'resp host \<Rightarrow> engine \<Rightarrow> operation \<Rightarrow> 'resp middleware \<Rightarrow> 'resp middleware" where
  "step h eng op mw =
     (case op of
        LoadRuleFiles files \<Rightarrow> snd (load_rule_files h eng files mw)
      | LoadRules text \<Rightarrow> snd (load_rules eng text mw)
      | Call req \<Rightarrow> snd (snd (middleware_call h eng mw req)))"

definition run :: "'resp host \<Rightarrow> engine \<Rightarrow> operation list \<Rightarrow> 'resp middleware \<Rightarrow> 'resp middleware" where
  "run h eng ops mw = fold (step h eng) ops mw"

subsection \<open>Verdicts and phases\<close>

text \<open>
  The response \<^verbatim>\<open>process_intervention\<close> builds from a disruptive verdict: the redirect
  when the verdict has a URL, the response made of the status alone otherwise.
\<close>

definition verdict_response :: "'resp host \<Rightarrow> ModSecurityIntervention \<Rightarrow> 'resp" where
  "verdict_response h iv =
     (case url iv of Some u \<Rightarrow> HttpResponseRedirect h u | None \<Rightarrow> HttpResponse h (status iv))"

text \<open>
  The verdict of the query that ends the history \<open>tr\<close>: whether it is disruptive, and the
  response that replaces the request's when it is.
\<close>

definition disruptive_at :: "engine \<Rightarrow> event list \<Rightarrow> bool" where
  "disruptive_at eng tr = (case intervention eng tr of None \<Rightarrow> False | Some iv \<Rightarrow> disruptive iv)"

definition blocking :: "'resp host \<Rightarrow> engine \<Rightarrow> event list \<Rightarrow> 'resp option" where
  "blocking h eng tr =
     (case intervention eng tr of
        None \<Rightarrow> None
      | Some iv \<Rightarrow> if disruptive iv then Some (verdict_response h iv) else None)"

text \<open>
  The six phases. A phase is executed by the call that signals its completion to the
  engine; \<open>phases\<close> lists the phases of a history in the order of their execution.
\<close>

datatype phase = Connection | URI | RequestHeaders | RequestBody | ResponseHeaders | ResponseBody

fun phase_of :: "event \<Rightarrow> phase option" where
  "phase_of (ProcessConnection a p n sp) = Some Connection"
| "phase_of (ProcessURI pa m v) = Some URI"
| "phase_of ProcessRequestHeaders = Some RequestHeaders"
| "phase_of ProcessRequestBody = Some RequestBody"
| "phase_of (ProcessResponseHeaders s v) = Some ResponseHeaders"
| "phase_of ProcessResponseBody = Some ResponseBody"
| "phase_of e = None"

fun phases :: "event list \<Rightarrow> phase list" where
  "phases [] = []"
| "phases (e # es) = (case phase_of e of Some ph \<Rightarrow> ph # phases es | None \<Rightarrow> phases es)"

fun request_side :: "phase \<Rightarrow> bool" where
  "request_side Connection = True"
| "request_side URI = True"
| "request_side RequestHeaders = True"
| "request_side RequestBody = True"
| "request_side ResponseHeaders = False"
| "request_side ResponseBody = False"

definition six_phases :: "phase list" where
  "six_phases = [Connection, URI, RequestHeaders, RequestBody, ResponseHeaders, ResponseBody]"

subsection \<open>The shape of a run\<close>

text \<open>
  The histories at which \<^verbatim>\<open>process_request\<close> and \<^verbatim>\<open>process_response\<close> look at the
  verdict, when no earlier verdict was disruptive: each ends with the query.
\<close>

definition request_checkpoints :: "request \<Rightarrow> event \<Rightarrow> event list list" where
  "request_checkpoints req conn =
     (let t1 = [conn, Intervention];
          t2 = t1 @ [ProcessURI (path req) (http_method req) ''1.1'', Intervention];
          t3 = t2 @ map (\<lambda>(k, v). AddRequestHeader k v) (iter_headers req)
                  @ [ProcessRequestHeaders, Intervention];
          t4 = t3 @ [AppendRequestBody (body req), ProcessRequestBody, Intervention]
      in [t1, t2, t3, t4])"

definition response_checkpoints :: "'resp host \<Rightarrow> event list \<Rightarrow> 'resp \<Rightarrow> event list list" where
  "response_checkpoints h t4 resp =
     (let t5 = t4 @ [GetResponse] @ map (\<lambda>(k, v). AddResponseHeader k v) (items h resp)
                  @ [ProcessResponseHeaders (status_code h resp) ''HTTP/1.1'', Intervention];
          t6 = t5 @ [AppendResponseBody (getvalue h resp), ProcessResponseBody, Intervention]
      in [t5, t6])"

definition checkpoints :: "'resp host \<Rightarrow> request \<Rightarrow> event \<Rightarrow> 'resp \<Rightarrow> event list list" where
  "checkpoints h req conn resp =
     request_checkpoints req conn
       @ response_checkpoints h (last (request_checkpoints req conn)) resp"

text \<open>The first history of a list whose verdict is disruptive, with the response.\<close>

fun first_block :: "'resp host \<Rightarrow> engine \<Rightarrow> event list list \<Rightarrow> (event list \<times> 'resp) option" where
  "first_block h eng [] = None"
| "first_block h eng (t # ts) =
     (case blocking h eng t of Some r \<Rightarrow> Some (t, r) | None \<Rightarrow> first_block h eng ts)"

definition final_trace :: "'resp host \<Rightarrow> engine \<Rightarrow> event list list \<Rightarrow> event list" where
  "final_trace h eng cps = (case first_block h eng cps of Some (t, r) \<Rightarrow> t | None \<Rightarrow> last cps)"

text \<open>
  A history \<open>tr\<close> that follows \<open>pre\<close> halts on \<open>B\<close> when nothing comes after a query at
  which \<open>B\<close> holds.
\<close>

fun halts :: "(event list \<Rightarrow> bool) \<Rightarrow> event list \<Rightarrow> event list \<Rightarrow> bool" where
  "halts B pre [] = True"
| "halts B pre (e # es) =
     (if e = Intervention \<and> B (pre @ [e]) then es = [] else halts B (pre @ [e]) es)"

section \<open>Test doubles\<close>

text \<open>
  Concrete collaborators, for the examples: responses with a status, header fields and
  a content, decimal numerals for \<^verbatim>\<open>int()\<close>, a directory of three rule files of which
  one is malformed, and an engine that accepts one inline text.
\<close>

datatype response = Response int "(string \<times> string) list" string

definition digit_of :: "char \<Rightarrow> int option" where
  "digit_of c =
     (let n = (of_char c :: nat) in if 48 \<le> n \<and> n \<le> 57 then Some (int n - 48) else None)"

fun decimal_acc :: "int \<Rightarrow> string \<Rightarrow> int option" where
  "decimal_acc a [] = Some a"
| "decimal_acc a (c # cs) =
     (case digit_of c of None \<Rightarrow> None | Some d \<Rightarrow> decimal_acc (10 * a + d) cs)"

definition decimal :: "string \<Rightarrow> int option" where
  "decimal s = (if s = [] then None else decimal_acc 0 s)"

definition django :: "response host" where
  "django =
     \<lparr>py_int = decimal,
      glob = (\<lambda>pattern. if pattern = ''rules/*.conf''
                then [''rules/a.conf'', ''rules/bad.conf'', ''rules/b.conf''] else []),
      HttpResponse = (\<lambda>s. Response s [] []),
      HttpResponseRedirect = (\<lambda>u. Response 302 [(''Location'', u)] []),
      items = (\<lambda>r. case r of Response s hs content \<Rightarrow> hs),
      status_code = (\<lambda>r. case r of Response s hs content \<Rightarrow> s),
      getvalue = (\<lambda>r. case r of Response s hs content \<Rightarrow> content)\<rparr>"

definition example_count :: "load list \<Rightarrow> int" where
  "example_count hist =
     (case rev hist of
        [] \<Rightarrow> 0
      | LoadFromUri p # _ \<Rightarrow>
          if p = ''rules/bad.conf'' then - 1 else if p = ''rules/a.conf'' then 3 else 2
      | Load t # _ \<Rightarrow> if t = ''SecRuleEngine On'' then 1 else - 1)"

definition quiet_engine :: engine where
  "quiet_engine =
     \<lparr>load_count = example_count,
      getParserError = (\<lambda>hist. ''Invalid input''),
      intervention = (\<lambda>tr. None),
      serverLog = (\<lambda>tr. [])\<rparr>"

definition example_mw :: "response middleware" where
  "example_mw =
     \<lparr>get_response = (\<lambda>req. Response 200 [(''Content-Type'', ''text/plain'')] ''ok''),
      rules = [], rule_files = None, rule_lines = None, priv_rules_count = 5, logger = []\<rparr>"

text \<open>
  A request from client port 54321 to a server on port 443. \<^verbatim>\<open>get_port()\<close> is
  ''443'': Django's \<^verbatim>\<open>HttpRequest.get_port\<close> returns \<^verbatim>\<open>META['SERVER_PORT']\<close> (or the
  forwarded port when \<^verbatim>\<open>USE_X_FORWARDED_PORT\<close> is set), not the port of the client.
\<close>

definition example_meta :: "(string \<times> string) list" where
  "example_meta =
     [(''REMOTE_ADDR'', ''10.0.0.1''), (''REMOTE_PORT'', ''54321''),
      (''SERVER_NAME'', ''example.org''), (''SERVER_PORT'', ''443''),
      (''HTTP_HOST'', ''example.org'')]"

definition example_request :: "string \<Rightarrow> request" where
  "example_request p =
     \<lparr>META = example_meta, get_port = ''443'', path = p, http_method = ''GET'', body = ''x=1''\<rparr>"

text \<open>
  An engine with scripted verdicts: a logged verdict that is not disruptive after the
  connection phase, status 403 for the path \<^verbatim>\<open>/admin\<close> and a redirect for the path
  \<^verbatim>\<open>/old\<close> after the URI phase, no verdict elsewhere.
\<close>

definition scripted_engine :: engine where
  "scripted_engine =
     \<lparr>load_count = example_count,
      getParserError = (\<lambda>hist. ''Invalid input''),
      intervention = (\<lambda>tr. case rev tr of
          Intervention # ProcessConnection a p n sp # _ \<Rightarrow>
            Some \<lparr>status = 200, url = None, log = Some ''connection seen'', disruptive = False\<rparr>
        | Intervention # ProcessURI pa m v # _ \<Rightarrow>
            if pa = ''/admin''
            then Some \<lparr>status = 403, url = None, log = Some ''Access denied'', disruptive = True\<rparr>
            else if pa = ''/old''
            then Some \<lparr>status = 302, url = Some ''/new'', log = None, disruptive = True\<rparr>
            else None
        | _ \<Rightarrow> None),
      serverLog = (\<lambda>tr. [])\<rparr>"

section \<open>Loading rules: proofs\<close>

lemma attempts_append:
  "attempts eng hist (xs @ ys) =
     attempts eng hist xs @ attempts eng (hist @ map LoadFromUri xs) ys"
  by (induction xs arbitrary: hist) simp_all

lemma attempts_paths: "map fst (attempts eng hist ps) = ps"
  by (induction ps arbitrary: hist) simp_all

lemma failed_append: "failed (xs @ ys) = failed xs @ failed ys"
  by (simp add: failed_def)

lemma added_append: "added (xs @ ys) = added xs + added ys"
  by (simp add: added_def loaded_def)

lemma added_nonneg: "0 \<le> added as"
  unfolding added_def loaded_def by (induction as) auto

lemma load_rule_file_fields:
  "rules (load_rule_file eng p mw) = rules mw @ [LoadFromUri p]"
  "get_response (load_rule_file eng p mw) = get_response mw"
  "rule_files (load_rule_file eng p mw) = rule_files mw"
  "rule_lines (load_rule_file eng p mw) = rule_lines mw"
  by (simp_all add: load_rule_file_def warning_def Let_def)

lemma load_rule_file_logger:
  "logger (load_rule_file eng p mw) =
     logger mw @ map (\<lambda>(p, c, e). (WARNING, rule_file_msg p e))
                   (failed (attempts eng (rules mw) [p]))"
  by (simp add: load_rule_file_def warning_def Let_def failed_def)

lemma load_rule_file_count:
  "priv_rules_count (load_rule_file eng p mw) =
     priv_rules_count mw + added (attempts eng (rules mw) [p])"
  by (simp add: load_rule_file_def warning_def Let_def added_def loaded_def)

lemma load_paths_spec:
  "rules (load_paths eng ps mw) = rules mw @ map LoadFromUri ps \<and>
   logger (load_paths eng ps mw) =
     logger mw @ map (\<lambda>(p, c, e). (WARNING, rule_file_msg p e))
                   (failed (attempts eng (rules mw) ps)) \<and>
   priv_rules_count (load_paths eng ps mw) =
     priv_rules_count mw + added (attempts eng (rules mw) ps) \<and>
   get_response (load_paths eng ps mw) = get_response mw \<and>
   rule_files (load_paths eng ps mw) = rule_files mw \<and>
   rule_lines (load_paths eng ps mw) = rule_lines mw"
proof (induction ps arbitrary: mw)
  case Nil
  show ?case by (simp add: added_def failed_def loaded_def)
next
  case (Cons p ps)
  have split: "attempts eng (rules mw) (p # ps) =
      attempts eng (rules mw) [p] @ attempts eng (rules mw @ [LoadFromUri p]) ps"
    by simp
  show ?case
    unfolding split failed_append added_append
    by (simp add: Cons.IH load_rule_file_fields load_rule_file_logger load_rule_file_count)
qed

lemma load_patterns_spec:
  "rules (load_patterns h eng pats mw) = rules mw @ map LoadFromUri (expand h pats) \<and>
   logger (load_patterns h eng pats mw) =
     logger mw @ map (\<lambda>(p, c, e). (WARNING, rule_file_msg p e))
                   (failed (attempts eng (rules mw) (expand h pats))) \<and>
   priv_rules_count (load_patterns h eng pats mw) =
     priv_rules_count mw + added (attempts eng (rules mw) (expand h pats)) \<and>
   get_response (load_patterns h eng pats mw) = get_response mw \<and>
   rule_files (load_patterns h eng pats mw) = rule_files mw \<and>
   rule_lines (load_patterns h eng pats mw) = rule_lines mw"
proof (induction pats arbitrary: mw)
  case Nil
  show ?case by (simp add: expand_def added_def failed_def loaded_def)
next
  case (Cons pat pats)
  have e: "expand h (pat # pats) = glob h pat @ expand h pats"
    by (simp add: expand_def)
  show ?case
    unfolding e attempts_append failed_append added_append
    by (simp add: Cons.IH load_paths_spec)
qed

text \<open>
  C5. \<^verbatim>\<open>load_rule_files\<close> calls \<^verbatim>\<open>loadFromUri\<close> once for every path the patterns expand
  to, in order, whatever the earlier loads returned. The logger receives exactly one
  warning for each load that returned a negative count, made of the path and of the
  parser error text, and nothing else. The value returned is the sum of the counts of
  the other loads, which is also what the call adds to the running total.
\<close>

theorem load_rule_files_tolerates_failures:
  "rules (snd (load_rule_files h eng pats mw)) = rules mw @ map LoadFromUri (expand h pats) \<and>
   map fst (attempts eng (rules mw) (expand h pats)) = expand h pats \<and>
   logger (snd (load_rule_files h eng pats mw)) =
     logger mw @ map (\<lambda>(p, c, e). (WARNING, rule_file_msg p e))
                   (failed (attempts eng (rules mw) (expand h pats))) \<and>
   fst (load_rule_files h eng pats mw) = added (attempts eng (rules mw) (expand h pats)) \<and>
   rules_count (snd (load_rule_files h eng pats mw)) =
     rules_count mw + fst (load_rule_files h eng pats mw) \<and>
   0 \<le> fst (load_rule_files h eng pats mw)"
  by (simp add: load_rule_files_def Let_def rules_count_def load_patterns_spec attempts_paths
      added_nonneg)

text \<open>
  The example of the spec: of three files one is malformed. The call returns the sum
  of the two valid files' counts, logs one warning, and the total grows by that sum.
\<close>

theorem load_rule_files_tolerates_failures_example:
  "fst (load_rule_files django quiet_engine [''rules/*.conf''] example_mw) = 5 \<and>
   rules_count (snd (load_rule_files django quiet_engine [''rules/*.conf''] example_mw)) = 10 \<and>
   logger (snd (load_rule_files django quiet_engine [''rules/*.conf''] example_mw)) =
     [(WARNING, ''[ModSecurity] Error trying to load rule file rules/bad.conf. Invalid input'')] \<and>
   rules (snd (load_rule_files django quiet_engine [''rules/*.conf''] example_mw)) =
     [LoadFromUri ''rules/a.conf'', LoadFromUri ''rules/bad.conf'', LoadFromUri ''rules/b.conf'']"
  using load_rule_files_tolerates_failures [of django quiet_engine "[''rules/*.conf'']" example_mw]
  by (simp add: expand_def django_def quiet_engine_def example_count_def example_mw_def
      failed_def added_def loaded_def rule_file_msg_def rules_count_def)

text \<open>
  C6. \<^verbatim>\<open>load_rules\<close> returns 0 and changes nothing when the text is \<^verbatim>\<open>None\<close> or empty.
  For any other text it makes exactly one \<^verbatim>\<open>rules.load\<close> call, with the whole text.
  When the engine returns a count that is not negative, that count is returned and
  added to the running total, and nothing is logged. When the engine returns a negative
  count, the total is unchanged and one warning with the parser error text is logged.
\<close>

theorem load_rules_loads_text_once:
  "load_rules eng None mw = (0, mw) \<and>
   load_rules eng (Some []) mw = (0, mw) \<and>
   (t \<noteq> [] \<longrightarrow>
      rules (snd (load_rules eng (Some t) mw)) = rules mw @ [Load t] \<and>
      (0 \<le> load_count eng (rules mw @ [Load t]) \<longrightarrow>
         fst (load_rules eng (Some t) mw) = load_count eng (rules mw @ [Load t]) \<and>
         rules_count (snd (load_rules eng (Some t) mw)) =
           rules_count mw + fst (load_rules eng (Some t) mw) \<and>
         logger (snd (load_rules eng (Some t) mw)) = logger mw) \<and>
      (load_count eng (rules mw @ [Load t]) < 0 \<longrightarrow>
         rules_count (snd (load_rules eng (Some t) mw)) = rules_count mw \<and>
         logger (snd (load_rules eng (Some t) mw)) =
           logger mw @ [(WARNING, rules_msg (getParserError eng (rules mw @ [Load t])))]))"
  by (simp add: load_rules_def Let_def rules_count_def warning_def)

text \<open>A text the engine accepts with one rule, and a text it rejects.\<close>

theorem load_rules_loads_text_once_example:
  "''SecRuleEngine On'' \<noteq> [] \<and>
   0 \<le> load_count quiet_engine (rules example_mw @ [Load ''SecRuleEngine On'']) \<and>
   fst (load_rules quiet_engine (Some ''SecRuleEngine On'') example_mw) = 1 \<and>
   rules_count (snd (load_rules quiet_engine (Some ''SecRuleEngine On'') example_mw)) = 6 \<and>
   logger (snd (load_rules quiet_engine (Some ''SecRuleEngine On'') example_mw)) = [] \<and>
   rules (snd (load_rules quiet_engine (Some ''SecRuleEngine On'') example_mw)) =
     [Load ''SecRuleEngine On''] \<and>
   ''SecRule broken'' \<noteq> [] \<and>
   load_count quiet_engine (rules example_mw @ [Load ''SecRule broken'']) < 0 \<and>
   rules_count (snd (load_rules quiet_engine (Some ''SecRule broken'') example_mw)) = 5 \<and>
   logger (snd (load_rules quiet_engine (Some ''SecRule broken'') example_mw)) =
     [(WARNING, ''[ModSecurity] Error trying to load rules: Invalid input'')]"
  using load_rules_loads_text_once [of quiet_engine example_mw "''SecRuleEngine On''"]
    load_rules_loads_text_once [of quiet_engine example_mw "''SecRule broken''"]
  by (simp add: quiet_engine_def example_count_def example_mw_def rules_count_def rules_msg_def)

text \<open>
  C7. The value \<^verbatim>\<open>load_rules\<close> returns is the integer the engine returned, also when it
  is negative: for a text the engine rejects with the count -1, the call returns -1, not
  0, although no rule was loaded and the total is unchanged. The docstring promises
  "the total rules that were loaded", and \<^verbatim>\<open>load_rule_files\<close> returns the growth of the
  total.
\<close>

theorem load_rules_returns_negative_count:
  "fst (load_rules quiet_engine (Some ''SecRule broken'') example_mw) = - 1 \<and>
   load_count quiet_engine (rules example_mw @ [Load ''SecRule broken'']) = - 1 \<and>
   rules_count (snd (load_rules quiet_engine (Some ''SecRule broken'') example_mw)) =
     rules_count example_mw"
  by (simp add: load_rules_def Let_def quiet_engine_def example_count_def example_mw_def
      rules_count_def warning_def)

subsection \<open>Construction\<close>

lemma load_rule_files_rules:
  "rules (snd (load_rule_files h eng pats mw)) = rules mw @ map LoadFromUri (expand h pats)"
  by (simp add: load_rule_files_def Let_def load_patterns_spec)

lemma load_rule_files_frame:
  "get_response (snd (load_rule_files h eng pats mw)) = get_response mw"
  "rule_files (snd (load_rule_files h eng pats mw)) = rule_files mw"
  "rule_lines (snd (load_rule_files h eng pats mw)) = rule_lines mw"
  by (simp_all add: load_rule_files_def Let_def load_patterns_spec)

lemma load_rules_frame:
  "get_response (snd (load_rules eng text mw)) = get_response mw"
  "rule_files (snd (load_rules eng text mw)) = rule_files mw"
  "rule_lines (snd (load_rules eng text mw)) = rule_lines mw"
  by (simp_all add: load_rules_def Let_def warning_def split: option.splits)

lemma load_rules_rules:
  "rules (snd (load_rules eng text mw)) =
     rules mw @ (case text of None \<Rightarrow> [] | Some t \<Rightarrow> if t = [] then [] else [Load t])"
  by (simp add: load_rules_def Let_def warning_def split: option.splits)

text \<open>
  C10. \<^verbatim>\<open>__init__\<close> treats a rule-files setting that is one string as the list of that
  one pattern, and an inline-rules setting that is a list of strings as the one text of
  its lines joined with newlines. The loads made on the rules object are the file loads
  of the expanded patterns first, then the single load of the whole inline text (none
  when the text is empty, see C6).
\<close>

theorem init_normalises_settings:
  "init h eng (st\<lparr>MODSECURITY_RULE_FILES := PyStr s\<rparr>) handler =
     init h eng (st\<lparr>MODSECURITY_RULE_FILES := PyList [s]\<rparr>) handler \<and>
   rule_files (init h eng (st\<lparr>MODSECURITY_RULE_FILES := PyStr s\<rparr>) handler) = Some [s] \<and>
   init h eng (st\<lparr>MODSECURITY_RULES := PyList ls\<rparr>) handler =
     init h eng (st\<lparr>MODSECURITY_RULES := PyStr (join_newline ls)\<rparr>) handler \<and>
   rule_lines (init h eng (st\<lparr>MODSECURITY_RULES := PyList ls\<rparr>) handler) =
     Some (join_newline ls) \<and>
   rules (init h eng st handler) =
     map LoadFromUri
       (case MODSECURITY_RULE_FILES st of
          PyNone \<Rightarrow> [] | PyStr p \<Rightarrow> expand h [p] | PyList ps \<Rightarrow> expand h ps)
     @ (case MODSECURITY_RULES st of
          PyNone \<Rightarrow> []
        | PyStr t \<Rightarrow> if t = [] then [] else [Load t]
        | PyList ts \<Rightarrow> if join_newline ts = [] then [] else [Load (join_newline ts)])"
proof -
  have norm: "init h eng (st\<lparr>MODSECURITY_RULE_FILES := PyStr s\<rparr>) handler =
      init h eng (st\<lparr>MODSECURITY_RULE_FILES := PyList [s]\<rparr>) handler"
    by (simp add: init_def)
  have files: "rule_files (init h eng (st\<lparr>MODSECURITY_RULE_FILES := PyStr s\<rparr>) handler) = Some [s]"
    by (simp add: init_def Let_def load_rule_files_frame load_rules_frame split: setting.splits)
  have joined: "init h eng (st\<lparr>MODSECURITY_RULES := PyList ls\<rparr>) handler =
      init h eng (st\<lparr>MODSECURITY_RULES := PyStr (join_newline ls)\<rparr>) handler"
    by (simp add: init_def)
  have lines: "rule_lines (init h eng (st\<lparr>MODSECURITY_RULES := PyList ls\<rparr>) handler) =
      Some (join_newline ls)"
    by (simp add: init_def Let_def load_rule_files_frame load_rules_frame split: setting.splits)
  have order: "rules (init h eng st handler) =
     map LoadFromUri
       (case MODSECURITY_RULE_FILES st of
          PyNone \<Rightarrow> [] | PyStr p \<Rightarrow> expand h [p] | PyList ps \<Rightarrow> expand h ps)
     @ (case MODSECURITY_RULES st of
          PyNone \<Rightarrow> []
        | PyStr t \<Rightarrow> if t = [] then [] else [Load t]
        | PyList ts \<Rightarrow> if join_newline ts = [] then [] else [Load (join_newline ts)])"
    by (simp add: init_def Let_def load_rule_files_rules load_rules_rules split: setting.splits)
  from norm files joined lines order show ?thesis by blast
qed

text \<open>One pattern given as a string and two inline lines given as a list.\<close>

theorem init_normalises_settings_example:
  "rules (init django quiet_engine
      \<lparr>MODSECURITY_RULE_FILES = PyStr ''rules/*.conf'',
       MODSECURITY_RULES = PyList [''SecRuleEngine On'', ''SecRequestBodyAccess On'']\<rparr>
      (get_response example_mw)) =
     [LoadFromUri ''rules/a.conf'', LoadFromUri ''rules/bad.conf'', LoadFromUri ''rules/b.conf'',
      Load (''SecRuleEngine On'' @ [CHR 0x0A] @ ''SecRequestBodyAccess On'')]"
  using init_normalises_settings [where h = django and eng = quiet_engine
      and handler = "get_response example_mw"
      and st = "\<lparr>MODSECURITY_RULE_FILES = PyStr ''rules/*.conf'',
        MODSECURITY_RULES = PyList [''SecRuleEngine On'', ''SecRequestBodyAccess On'']\<rparr>",
      THEN conjunct2, THEN conjunct2, THEN conjunct2, THEN conjunct2]
  by (simp add: expand_def django_def)

section \<open>Processing a request: proofs\<close>

subsection \<open>One call, one query\<close>

lemma fold_callback_fields:
  "get_response (fold modsecurity_log_callback ms mw) = get_response mw"
  "rules (fold modsecurity_log_callback ms mw) = rules mw"
  "priv_rules_count (fold modsecurity_log_callback ms mw) = priv_rules_count mw"
  by (induction ms arbitrary: mw) (simp_all add: modsecurity_log_callback_def info_def)

lemma fold_callback_logger:
  "logger (fold modsecurity_log_callback ms mw) = logger mw @ map (Pair INFO) ms"
  by (induction ms arbitrary: mw) (simp_all add: modsecurity_log_callback_def info_def)

lemma call_trace: "fst (call eng e s) = fst s @ [e]"
  by (simp add: call_def split: prod.splits)

lemma call_fields:
  "get_response (snd (call eng e s)) = get_response (snd s)"
  "rules (snd (call eng e s)) = rules (snd s)"
  "priv_rules_count (snd (call eng e s)) = priv_rules_count (snd s)"
  by (simp_all add: call_def fold_callback_fields split: prod.splits)

lemma fold_call_trace:
  "fst (fold (\<lambda>x. call eng (f x)) xs s) = fst s @ map f xs"
  by (induction xs arbitrary: s) (simp_all add: call_trace)

lemma fold_call_fields:
  "get_response (snd (fold (\<lambda>x. call eng (f x)) xs s)) = get_response (snd s)"
  "rules (snd (fold (\<lambda>x. call eng (f x)) xs s)) = rules (snd s)"
  "priv_rules_count (snd (fold (\<lambda>x. call eng (f x)) xs s)) = priv_rules_count (snd s)"
  by (induction xs arbitrary: s) (simp_all add: call_fields)

lemma process_intervention_result:
  "fst (process_intervention h eng s) = blocking h eng (fst s @ [Intervention])"
  by (simp add: process_intervention_def blocking_def verdict_response_def call_def Let_def
      split: prod.splits option.splits)

lemma process_intervention_trace:
  "fst (snd (process_intervention h eng s)) = fst s @ [Intervention]"
  by (simp add: process_intervention_def call_def Let_def split: prod.splits option.splits)

lemma process_intervention_fields:
  "get_response (snd (snd (process_intervention h eng s))) = get_response (snd s)"
  "rules (snd (snd (process_intervention h eng s))) = rules (snd s)"
  "priv_rules_count (snd (snd (process_intervention h eng s))) = priv_rules_count (snd s)"
  by (simp_all add: process_intervention_def call_def Let_def info_def fold_callback_fields
      split: prod.splits option.splits)

lemma process_intervention_logger:
  "logger (snd (snd (process_intervention h eng (tr, mw)))) =
     logger mw @ map (Pair INFO) (serverLog eng (tr @ [Intervention]))
       @ (case intervention eng (tr @ [Intervention]) of
            None \<Rightarrow> []
          | Some iv \<Rightarrow> (case log iv of None \<Rightarrow> [] | Some l \<Rightarrow> [(INFO, l)]))"
  by (simp add: process_intervention_def call_def Let_def info_def fold_callback_logger
      split: prod.splits option.splits)

lemma blocking_None: "blocking h eng tr = None \<longleftrightarrow> \<not> disruptive_at eng tr"
  by (simp add: blocking_def disruptive_at_def split: option.splits)

text \<open>
  C2. \<^verbatim>\<open>process_intervention\<close> makes one query on the transaction. For the verdict
  \<open>iv\<close> the engine returns: no response when \<open>iv\<close> is not disruptive; the redirect to
  the verdict's URL when it is disruptive and has one, whatever its status; the response
  built from the verdict's status alone, with no content given, when it is disruptive
  and has no URL. In every case a log text of the verdict is written to the logger at
  level info, after the messages the engine sent to the callback during the query.
\<close>

theorem process_intervention_translates_verdict:
  assumes "intervention eng (tr @ [Intervention]) = Some iv"
  shows "fst (snd (process_intervention h eng (tr, mw))) = tr @ [Intervention] \<and>
     (\<not> disruptive iv \<longrightarrow> fst (process_intervention h eng (tr, mw)) = None) \<and>
     (disruptive iv \<longrightarrow>
        (\<forall>u. url iv = Some u \<longrightarrow>
           fst (process_intervention h eng (tr, mw)) = Some (HttpResponseRedirect h u)) \<and>
        (url iv = None \<longrightarrow>
           fst (process_intervention h eng (tr, mw)) = Some (HttpResponse h (status iv)))) \<and>
     (\<forall>l. log iv = Some l \<longrightarrow>
        logger (snd (snd (process_intervention h eng (tr, mw)))) =
          logger mw @ map (Pair INFO) (serverLog eng (tr @ [Intervention])) @ [(INFO, l)]) \<and>
     (log iv = None \<longrightarrow>
        logger (snd (snd (process_intervention h eng (tr, mw)))) =
          logger mw @ map (Pair INFO) (serverLog eng (tr @ [Intervention])))"
  using assms
  by (simp add: process_intervention_result process_intervention_trace
      process_intervention_logger blocking_def verdict_response_def)

text \<open>
  The three verdicts of the scripted engine: logged and not disruptive, status 403
  with a log text, redirect without one.
\<close>

theorem process_intervention_translates_verdict_example:
  "intervention scripted_engine ([ProcessConnection ''10.0.0.1'' 443 ''example.org'' 443] @ [Intervention]) =
     Some \<lparr>status = 200, url = None, log = Some ''connection seen'', disruptive = False\<rparr> \<and>
   process_intervention django scripted_engine
       ([ProcessConnection ''10.0.0.1'' 443 ''example.org'' 443], example_mw) =
     (None, [ProcessConnection ''10.0.0.1'' 443 ''example.org'' 443, Intervention],
      example_mw\<lparr>logger := [(INFO, ''connection seen'')]\<rparr>) \<and>
   intervention scripted_engine ([ProcessURI ''/admin'' ''GET'' ''1.1''] @ [Intervention]) =
     Some \<lparr>status = 403, url = None, log = Some ''Access denied'', disruptive = True\<rparr> \<and>
   process_intervention django scripted_engine ([ProcessURI ''/admin'' ''GET'' ''1.1''], example_mw) =
     (Some (HttpResponse django 403), [ProcessURI ''/admin'' ''GET'' ''1.1'', Intervention],
      example_mw\<lparr>logger := [(INFO, ''Access denied'')]\<rparr>) \<and>
   intervention scripted_engine ([ProcessURI ''/old'' ''GET'' ''1.1''] @ [Intervention]) =
     Some \<lparr>status = 302, url = Some ''/new'', log = None, disruptive = True\<rparr> \<and>
   process_intervention django scripted_engine ([ProcessURI ''/old'' ''GET'' ''1.1''], example_mw) =
     (Some (HttpResponseRedirect django ''/new''), [ProcessURI ''/old'' ''GET'' ''1.1'', Intervention],
      example_mw)"
proof -
  let ?conn = "ProcessConnection ''10.0.0.1'' 443 ''example.org'' 443"
  let ?admin = "ProcessURI ''/admin'' ''GET'' ''1.1''"
  let ?old = "ProcessURI ''/old'' ''GET'' ''1.1''"
  have v1: "intervention scripted_engine ([?conn] @ [Intervention]) =
      Some \<lparr>status = 200, url = None, log = Some ''connection seen'', disruptive = False\<rparr>"
    by (simp add: scripted_engine_def)
  have v2: "intervention scripted_engine ([?admin] @ [Intervention]) =
      Some \<lparr>status = 403, url = None, log = Some ''Access denied'', disruptive = True\<rparr>"
    by (simp add: scripted_engine_def)
  have v3: "intervention scripted_engine ([?old] @ [Intervention]) =
      Some \<lparr>status = 302, url = Some ''/new'', log = None, disruptive = True\<rparr>"
    by (simp add: scripted_engine_def)
  have quiet: "serverLog scripted_engine t = []" for t
    by (simp add: scripted_engine_def)
  have frame: "snd (snd (process_intervention django scripted_engine (t, example_mw))) =
      example_mw\<lparr>logger := logger (snd (snd (process_intervention django scripted_engine (t, example_mw))))\<rparr>"
    for t
    by (simp add: process_intervention_def call_def Let_def info_def quiet
        split: option.splits)
  have r1: "process_intervention django scripted_engine ([?conn], example_mw) =
      (None, [?conn, Intervention], example_mw\<lparr>logger := [(INFO, ''connection seen'')]\<rparr>)"
    using process_intervention_translates_verdict [OF v1, of django example_mw] frame [of "[?conn]"]
    by (simp add: prod_eq_iff quiet example_mw_def)
  have r2: "process_intervention django scripted_engine ([?admin], example_mw) =
      (Some (HttpResponse django 403), [?admin, Intervention],
       example_mw\<lparr>logger := [(INFO, ''Access denied'')]\<rparr>)"
    using process_intervention_translates_verdict [OF v2, of django example_mw] frame [of "[?admin]"]
    by (simp add: prod_eq_iff quiet example_mw_def)
  have r3: "process_intervention django scripted_engine ([?old], example_mw) =
      (Some (HttpResponseRedirect django ''/new''), [?old, Intervention], example_mw)"
    using process_intervention_translates_verdict [OF v3, of django example_mw] frame [of "[?old]"]
    by (simp add: prod_eq_iff quiet example_mw_def)
  from v1 v2 v3 r1 r2 r3 show ?thesis by blast
qed

subsection \<open>The history and the result of a run\<close>

lemma connection_args_Inr:
  "connection_args h req = Inr conn \<Longrightarrow>
     \<exists>a p n sp. conn = ProcessConnection a p n sp \<and>
       map_of (META req) ''REMOTE_ADDR'' = Some a \<and> py_int h (get_port req) = Some p \<and>
       map_of (META req) ''SERVER_NAME'' = Some n \<and>
       (\<exists>s. map_of (META req) ''SERVER_PORT'' = Some s \<and> py_int h s = Some sp)"
  by (auto simp: connection_args_def meta_get_def to_int_def split: sum.splits option.splits)

lemma process_request_error:
  "connection_args h req = Inl e \<Longrightarrow> process_request h eng req s = (Inl e, s)"
  by (simp add: process_request_def)

lemma middleware_call_error:
  "connection_args h req = Inl e \<Longrightarrow> middleware_call h eng mw req = (Inl e, [], mw)"
  by (simp add: middleware_call_def process_request_error)

lemmas projections = call_trace fold_call_trace process_intervention_result
  process_intervention_trace call_fields fold_call_fields process_intervention_fields

lemma process_request_shape:
  assumes "connection_args h req = Inr conn"
  shows "fst (process_request h eng req ([], mw)) =
           Inr (map_option snd (first_block h eng (request_checkpoints req conn)))"
    and "fst (snd (process_request h eng req ([], mw))) =
           (case first_block h eng (request_checkpoints req conn) of
              Some (t, r) \<Rightarrow> t | None \<Rightarrow> last (request_checkpoints req conn))"
    and "get_response (snd (snd (process_request h eng req ([], mw)))) = get_response mw"
    and "rules (snd (snd (process_request h eng req ([], mw)))) = rules mw"
    and "priv_rules_count (snd (snd (process_request h eng req ([], mw)))) = priv_rules_count mw"
  using assms
  by (simp_all add: process_request_def request_checkpoints_def Let_def case_prod_unfold
      projections split: option.splits)

lemma process_response_shape:
  shows "fst (process_response h eng req resp (t4 @ [GetResponse], mw)) =
           (case first_block h eng (response_checkpoints h t4 resp) of
              Some (t, r) \<Rightarrow> r | None \<Rightarrow> resp)"
    and "fst (snd (process_response h eng req resp (t4 @ [GetResponse], mw))) =
           (case first_block h eng (response_checkpoints h t4 resp) of
              Some (t, r) \<Rightarrow> t | None \<Rightarrow> last (response_checkpoints h t4 resp))"
    and "get_response (snd (snd (process_response h eng req resp s))) = get_response (snd s)"
    and "rules (snd (snd (process_response h eng req resp s))) = rules (snd s)"
    and "priv_rules_count (snd (snd (process_response h eng req resp s))) =
           priv_rules_count (snd s)"
  by (simp_all add: process_response_def response_checkpoints_def Let_def case_prod_unfold
      projections split: option.splits)

lemma first_block_append:
  "first_block h eng (xs @ ys) =
     (case first_block h eng xs of Some b \<Rightarrow> Some b | None \<Rightarrow> first_block h eng ys)"
  by (induction xs) (simp_all split: option.splits)

lemma first_block_None:
  "first_block h eng ts = None \<longleftrightarrow> (\<forall>t\<in>set ts. blocking h eng t = None)"
  by (induction ts) (auto split: option.splits)

lemma first_block_mem:
  "first_block h eng ts = Some (t, r) \<Longrightarrow> t \<in> set ts \<and> blocking h eng t = Some r"
  by (induction ts) (auto split: option.splits)

lemma middleware_call_shape:
  assumes "connection_args h req = Inr conn"
  shows "fst (middleware_call h eng mw req) =
           Inr (case first_block h eng (checkpoints h req conn (get_response mw req)) of
                  Some (t, r) \<Rightarrow> r | None \<Rightarrow> get_response mw req)"
    and "fst (snd (middleware_call h eng mw req)) =
           final_trace h eng (checkpoints h req conn (get_response mw req))"
    and "get_response (snd (snd (middleware_call h eng mw req))) = get_response mw"
    and "rules (snd (snd (middleware_call h eng mw req))) = rules mw"
    and "priv_rules_count (snd (snd (middleware_call h eng mw req))) = priv_rules_count mw"
proof -
  obtain r tr mw1 where pr: "process_request h eng req ([], mw) = (r, tr, mw1)"
    by (metis prod.collapse)
  note shape = process_request_shape [OF assms, of eng mw, unfolded pr, simplified]
  have nonempty: "response_checkpoints h t resp \<noteq> []" for t resp
    by (simp add: response_checkpoints_def Let_def)
  have call_eq: "middleware_call h eng mw req =
      (case r of
         Inl e \<Rightarrow> (Inl e, tr, mw1)
       | Inr (Some response) \<Rightarrow> (Inr response, tr, mw1)
       | Inr None \<Rightarrow>
          (Inr (fst (process_response h eng req (get_response mw1 req) (tr @ [GetResponse], mw1))),
           snd (process_response h eng req (get_response mw1 req) (tr @ [GetResponse], mw1))))"
    by (simp add: middleware_call_def pr case_prod_unfold split: sum.splits option.splits)
  show "fst (middleware_call h eng mw req) =
           Inr (case first_block h eng (checkpoints h req conn (get_response mw req)) of
                  Some (t, r) \<Rightarrow> r | None \<Rightarrow> get_response mw req)"
    using shape
    by (auto simp: call_eq checkpoints_def first_block_append process_response_shape
        split: option.splits)
  show "fst (snd (middleware_call h eng mw req)) =
           final_trace h eng (checkpoints h req conn (get_response mw req))"
    using shape
    by (auto simp: call_eq final_trace_def checkpoints_def first_block_append
        process_response_shape nonempty split: option.splits)
  show "get_response (snd (snd (middleware_call h eng mw req))) = get_response mw"
    using shape by (auto simp: call_eq process_response_shape split: option.splits)
  show "rules (snd (snd (middleware_call h eng mw req))) = rules mw"
    using shape by (auto simp: call_eq process_response_shape split: option.splits)
  show "priv_rules_count (snd (snd (middleware_call h eng mw req))) = priv_rules_count mw"
    using shape by (auto simp: call_eq process_response_shape split: option.splits)
qed

lemma middleware_call_frame:
  "get_response (snd (snd (middleware_call h eng mw req))) = get_response mw \<and>
   rules (snd (snd (middleware_call h eng mw req))) = rules mw \<and>
   priv_rules_count (snd (snd (middleware_call h eng mw req))) = priv_rules_count mw"
proof (cases "connection_args h req")
  case (Inl e)
  then show ?thesis by (simp add: middleware_call_error)
next
  case (Inr conn)
  then show ?thesis by (simp add: middleware_call_shape)
qed

text \<open>
  A call of the middleware either raises before anything is sent to the engine, or
  returns with the history that ends at the first disruptive verdict (at the sixth
  query when there is none).
\<close>

lemma run_cases:
  assumes "middleware_call h eng mw req = (res, tr, mw')"
  obtains (raised) e where "connection_args h req = Inl e" "res = Inl e" "tr = []"
  | (returned) a p n sp where
      "connection_args h req = Inr (ProcessConnection a p n sp)"
      "tr = final_trace h eng
              (checkpoints h req (ProcessConnection a p n sp) (get_response mw req))"
      "res = Inr (case first_block h eng
                         (checkpoints h req (ProcessConnection a p n sp) (get_response mw req)) of
                    Some (t, r) \<Rightarrow> r | None \<Rightarrow> get_response mw req)"
proof (cases "connection_args h req")
  case (Inl e)
  with assms have "res = Inl e" "tr = []" by (simp_all add: middleware_call_error)
  with Inl show ?thesis by (rule raised)
next
  case (Inr conn)
  then obtain a p n sp where conn: "conn = ProcessConnection a p n sp"
    using connection_args_Inr by blast
  from assms have "res = fst (middleware_call h eng mw req)"
    "tr = fst (snd (middleware_call h eng mw req))" by simp_all
  with Inr conn show ?thesis
    by (intro returned [of a p n sp]) (simp_all add: middleware_call_shape)
qed

subsection \<open>Facts about the histories\<close>

lemma halts_sound:
  "halts B pre tr \<Longrightarrow> tr = p @ Intervention # rest \<Longrightarrow> B (pre @ p @ [Intervention]) \<Longrightarrow> rest = []"
proof (induction p arbitrary: pre tr)
  case Nil
  then show ?case by simp
next
  case (Cons e p)
  from Cons.prems(2) have tr: "tr = e # (p @ Intervention # rest)" by simp
  show ?case
  proof (cases "e = Intervention \<and> B (pre @ [e])")
    case True
    with Cons.prems(1) tr have "p @ Intervention # rest = []" by auto
    then show ?thesis by simp
  next
    case False
    with Cons.prems(1) tr have "halts B (pre @ [e]) (p @ Intervention # rest)" by simp
    from Cons.IH [OF this refl] Cons.prems(3) show ?thesis by simp
  qed
qed

lemma halts_skip:
  "Intervention \<notin> set xs \<Longrightarrow> halts B pre (xs @ ys) = halts B (pre @ xs) ys"
  by (induction xs arbitrary: pre) auto

lemma halts_headers [simp]:
  "halts B pre (map (\<lambda>x. AddRequestHeader (f x) (g x)) xs @ ys) =
     halts B (pre @ map (\<lambda>x. AddRequestHeader (f x) (g x)) xs) ys"
  "halts B pre (map (\<lambda>x. AddResponseHeader (f x) (g x)) xs @ ys) =
     halts B (pre @ map (\<lambda>x. AddResponseHeader (f x) (g x)) xs) ys"
  by (simp_all add: halts_skip image_iff)

lemma phases_append: "phases (xs @ ys) = phases xs @ phases ys"
  by (induction xs) (simp_all split: option.splits)

lemma phases_headers [simp]:
  "phases (map (\<lambda>x. AddRequestHeader (f x) (g x)) xs) = []"
  "phases (map (\<lambda>x. AddResponseHeader (f x) (g x)) xs) = []"
  by (induction xs) simp_all

lemma count_headers [simp]:
  "count_list (map (\<lambda>x. AddRequestHeader (f x) (g x)) xs) GetResponse = 0"
  "count_list (map (\<lambda>x. AddResponseHeader (f x) (g x)) xs) GetResponse = 0"
  by (induction xs) simp_all

lemma takeWhile_headers [simp]:
  "takeWhile (\<lambda>e. e \<noteq> GetResponse) (map (\<lambda>x. AddRequestHeader (f x) (g x)) xs @ ys) =
     map (\<lambda>x. AddRequestHeader (f x) (g x)) xs @ takeWhile (\<lambda>e. e \<noteq> GetResponse) ys"
  "dropWhile (\<lambda>e. e \<noteq> GetResponse) (map (\<lambda>x. AddRequestHeader (f x) (g x)) xs @ ys) =
     dropWhile (\<lambda>e. e \<noteq> GetResponse) ys"
  by (induction xs) simp_all

lemma split_at_single:
  assumes "count_list tr x \<le> 1" "tr = a @ x # b"
  shows "a = takeWhile (\<lambda>e. e \<noteq> x) tr \<and> b = tl (dropWhile (\<lambda>e. e \<noteq> x) tr)"
proof -
  from assms have "count_list a x = 0" by simp
  then have "x \<notin> set a" by (simp add: count_list_0_iff)
  then have "\<And>e. e \<in> set a \<Longrightarrow> e \<noteq> x" by blast
  then show ?thesis
    unfolding assms(2) by (simp add: takeWhile_append2 dropWhile_append2)
qed

lemmas unfold_checkpoints = final_trace_def checkpoints_def request_checkpoints_def
  response_checkpoints_def Let_def case_prod_unfold

lemma final_trace_halts:
  "halts (\<lambda>t. blocking h eng t \<noteq> None) []
     (final_trace h eng (checkpoints h req (ProcessConnection a p n sp) resp))"
  by (simp add: unfold_checkpoints split: option.splits)

lemma checkpoints_end:
  "t \<in> set (checkpoints h req conn resp) \<Longrightarrow> t \<noteq> [] \<and> last t = Intervention"
  by (auto simp: checkpoints_def request_checkpoints_def response_checkpoints_def Let_def)

lemma final_trace_end:
  "final_trace h eng (checkpoints h req conn resp) \<noteq> [] \<and>
   last (final_trace h eng (checkpoints h req conn resp)) = Intervention"
proof (cases "first_block h eng (checkpoints h req conn resp)")
  case None
  have "last (checkpoints h req conn resp) \<in> set (checkpoints h req conn resp)"
    by (simp add: checkpoints_def response_checkpoints_def Let_def)
  from checkpoints_end [OF this] None show ?thesis by (simp add: final_trace_def)
next
  case (Some b)
  then obtain t r where "first_block h eng (checkpoints h req conn resp) = Some (t, r)"
    by (cases b) simp
  with first_block_mem [OF this] checkpoints_end [of t h req conn resp] show ?thesis
    by (simp add: final_trace_def)
qed

lemma final_trace_blocked:
  assumes "blocking h eng (final_trace h eng cps) = Some r" "cps \<noteq> []"
  shows "first_block h eng cps = Some (final_trace h eng cps, r)"
proof (cases "first_block h eng cps")
  case None
  then have "blocking h eng (last cps) = None"
    using assms(2) by (simp add: first_block_None)
  with None assms(1) show ?thesis by (simp add: final_trace_def)
next
  case (Some b)
  then obtain t r' where b: "first_block h eng cps = Some (t, r')" by (cases b) simp
  from first_block_mem [OF b] b assms(1) show ?thesis by (simp add: final_trace_def)
qed

lemma final_trace_unblocked:
  assumes "\<not> disruptive_at eng (final_trace h eng cps)"
  shows "first_block h eng cps = None"
proof (cases "first_block h eng cps")
  case None
  then show ?thesis .
next
  case (Some b)
  then obtain t r where b: "first_block h eng cps = Some (t, r)" by (cases b) simp
  from assms b have "\<not> disruptive_at eng t" by (simp add: final_trace_def)
  then have "blocking h eng t = None" by (simp add: blocking_None)
  with first_block_mem [OF b] show ?thesis by simp
qed

lemma final_trace_handler:
  "GetResponse \<in> set (final_trace h eng (checkpoints h req (ProcessConnection a p n sp) resp)) \<longleftrightarrow>
     \<not> request_side
          (last (phases (final_trace h eng (checkpoints h req (ProcessConnection a p n sp) resp))))"
  by (simp add: unfold_checkpoints phases_append image_iff split: option.splits)

lemma final_trace_phases:
  "prefix (phases (final_trace h eng (checkpoints h req (ProcessConnection a p n sp) resp)))
     six_phases"
  by (simp add: unfold_checkpoints phases_append six_phases_def split: option.splits)

lemma final_trace_complete:
  "first_block h eng (checkpoints h req (ProcessConnection a p n sp) resp) = None \<Longrightarrow>
   phases (final_trace h eng (checkpoints h req (ProcessConnection a p n sp) resp)) = six_phases"
  by (simp add: unfold_checkpoints phases_append six_phases_def split: option.splits)

lemma final_trace_count:
  "count_list (final_trace h eng (checkpoints h req (ProcessConnection a p n sp) resp)) GetResponse =
     (if first_block h eng (request_checkpoints req (ProcessConnection a p n sp)) = None
      then 1 else 0)"
  by (simp add: unfold_checkpoints split: option.splits)

lemma final_trace_before_handler:
  "GetResponse \<in> set (final_trace h eng (checkpoints h req (ProcessConnection a p n sp) resp)) \<Longrightarrow>
   phases (takeWhile (\<lambda>e. e \<noteq> GetResponse)
             (final_trace h eng (checkpoints h req (ProcessConnection a p n sp) resp))) =
     [Connection, URI, RequestHeaders, RequestBody]"
  by (auto simp: unfold_checkpoints phases_append image_iff split: option.splits)

lemma final_trace_after_handler:
  "GetResponse \<in> set (final_trace h eng (checkpoints h req (ProcessConnection a p n sp) resp)) \<Longrightarrow>
   prefix (phases (tl (dropWhile (\<lambda>e. e \<noteq> GetResponse)
             (final_trace h eng (checkpoints h req (ProcessConnection a p n sp) resp)))))
     [ResponseHeaders, ResponseBody]"
  by (auto simp: unfold_checkpoints phases_append image_iff split: option.splits)

subsection \<open>Two runs\<close>

lemma example_connection:
  "connection_args django (example_request p) =
     Inr (ProcessConnection ''10.0.0.1'' 443 ''example.org'' 443)"
  by (simp add: connection_args_def meta_get_def to_int_def example_request_def example_meta_def
      django_def decimal_def digit_of_def)

lemma pass_run:
  "middleware_call django quiet_engine example_mw (example_request ''/index'') =
     (Inr (Response 200 [(''Content-Type'', ''text/plain'')] ''ok''),
      [ProcessConnection ''10.0.0.1'' 443 ''example.org'' 443, Intervention,
       ProcessURI ''/index'' ''GET'' ''1.1'', Intervention,
       AddRequestHeader ''HOST'' ''example.org'', ProcessRequestHeaders, Intervention,
       AppendRequestBody ''x=1'', ProcessRequestBody, Intervention,
       GetResponse,
       AddResponseHeader ''Content-Type'' ''text/plain'',
       ProcessResponseHeaders 200 ''HTTP/1.1'', Intervention,
       AppendResponseBody ''ok'', ProcessResponseBody, Intervention],
      example_mw)"
  unfolding middleware_call_def process_request_def example_connection
  by (simp add: process_response_def process_intervention_def call_def iter_headers_def
      quiet_engine_def example_mw_def example_request_def example_meta_def django_def)

lemma admin_run:
  "middleware_call django scripted_engine example_mw (example_request ''/admin'') =
     (Inr (Response 403 [] []),
      [ProcessConnection ''10.0.0.1'' 443 ''example.org'' 443, Intervention,
       ProcessURI ''/admin'' ''GET'' ''1.1'', Intervention],
      example_mw\<lparr>logger := [(INFO, ''connection seen''), (INFO, ''Access denied'')]\<rparr>)"
  unfolding middleware_call_def process_request_def example_connection
  by (simp add: process_response_def process_intervention_def call_def iter_headers_def info_def
      scripted_engine_def example_mw_def example_request_def example_meta_def django_def)

subsection \<open>The short circuit\<close>

text \<open>
  C1. In any call of the middleware, a query whose verdict is disruptive is the last
  entry of the history: nothing is submitted to the engine after it and no later phase
  is run. The call returns the response translated from that verdict. When the phase
  just run at that query is a request phase, the wrapped handler is not invoked.
\<close>

theorem disruptive_verdict_stops_pipeline:
  assumes run: "middleware_call h eng mw req = (res, tr, mw')"
    and query: "tr = p @ Intervention # rest"
    and verdict: "intervention eng (p @ [Intervention]) = Some iv"
    and disruptive: "disruptive iv"
  shows "rest = [] \<and>
     res = Inr (case url iv of
                  Some u \<Rightarrow> HttpResponseRedirect h u
                | None \<Rightarrow> HttpResponse h (status iv)) \<and>
     (request_side (last (phases p)) \<longrightarrow> GetResponse \<notin> set tr)"
proof -
  have block: "blocking h eng (p @ [Intervention]) = Some (verdict_response h iv)"
    using verdict disruptive by (simp add: blocking_def)
  from run show ?thesis
  proof (cases rule: run_cases)
    case (raised e)
    with query show ?thesis by simp
  next
    case (returned a pt n sp)
    let ?cps = "checkpoints h req (ProcessConnection a pt n sp) (get_response mw req)"
    have "halts (\<lambda>t. blocking h eng t \<noteq> None) [] tr"
      unfolding returned(2) by (rule final_trace_halts)
    from halts_sound [OF this query] block have rest: "rest = []" by simp
    with query have tr: "tr = p @ [Intervention]" by simp
    have "?cps \<noteq> []" by (simp add: checkpoints_def request_checkpoints_def Let_def)
    with block tr returned(2)
    have "first_block h eng ?cps = Some (tr, verdict_response h iv)"
      using final_trace_blocked [of h eng ?cps "verdict_response h iv"] by simp
    with returned(3) have res: "res = Inr (verdict_response h iv)" by simp
    have "phases tr = phases p" using tr by (simp add: phases_append)
    with final_trace_handler [of h eng req a pt n sp "get_response mw req"] returned(2)
    have "request_side (last (phases p)) \<longrightarrow> GetResponse \<notin> set tr" by simp
    with rest res show ?thesis by (simp add: verdict_response_def)
  qed
qed

text \<open>
  The scripted engine answers the URI phase of a request for \<^verbatim>\<open>/admin\<close> with status
  403: the history ends there, the handler has not run.
\<close>

theorem disruptive_verdict_stops_pipeline_example:
  "middleware_call django scripted_engine example_mw (example_request ''/admin'') =
     (Inr (HttpResponse django 403),
      [ProcessConnection ''10.0.0.1'' 443 ''example.org'' 443, Intervention,
       ProcessURI ''/admin'' ''GET'' ''1.1''] @ Intervention # [],
      example_mw\<lparr>logger := [(INFO, ''connection seen''), (INFO, ''Access denied'')]\<rparr>) \<and>
   intervention scripted_engine
      ([ProcessConnection ''10.0.0.1'' 443 ''example.org'' 443, Intervention,
        ProcessURI ''/admin'' ''GET'' ''1.1''] @ [Intervention]) =
     Some \<lparr>status = 403, url = None, log = Some ''Access denied'', disruptive = True\<rparr> \<and>
   request_side (last (phases [ProcessConnection ''10.0.0.1'' 443 ''example.org'' 443,
      Intervention, ProcessURI ''/admin'' ''GET'' ''1.1''])) \<and>
   GetResponse \<notin> set ([ProcessConnection ''10.0.0.1'' 443 ''example.org'' 443, Intervention,
       ProcessURI ''/admin'' ''GET'' ''1.1''] @ Intervention # [])"
proof -
  let ?p = "[ProcessConnection ''10.0.0.1'' 443 ''example.org'' 443, Intervention,
       ProcessURI ''/admin'' ''GET'' ''1.1'']"
  let ?iv = "\<lparr>status = 403, url = None, log = Some ''Access denied'', disruptive = True\<rparr>"
  have run: "middleware_call django scripted_engine example_mw (example_request ''/admin'') =
     (Inr (HttpResponse django 403), ?p @ Intervention # [],
      example_mw\<lparr>logger := [(INFO, ''connection seen''), (INFO, ''Access denied'')]\<rparr>)"
  proof -
    have "HttpResponse django 403 = Response 403 [] []" by (simp add: django_def)
    with admin_run show ?thesis by simp
  qed
  have verdict: "intervention scripted_engine (?p @ [Intervention]) = Some ?iv"
    by (simp add: scripted_engine_def)
  have "disruptive ?iv" by simp
  from disruptive_verdict_stops_pipeline [OF run refl verdict this] run verdict
  show ?thesis by simp
qed

subsection \<open>The order of the phases\<close>

text \<open>
  C3. In any call of the middleware the phases are executed in the order Connection,
  URI, RequestHeaders, RequestBody, ResponseHeaders, ResponseBody: the phases of the
  history are an initial segment of this list, so none is skipped, repeated or
  reordered, and all six are executed when the call returns and its last verdict is not
  disruptive. The wrapped handler is invoked once when \<^verbatim>\<open>process_request\<close> returns
  \<^verbatim>\<open>None\<close> and not at all otherwise. When it is invoked, the four request phases have
  been executed before it, none of their verdicts was disruptive, and only response
  phases follow it.
\<close>

theorem phases_run_in_order:
  assumes run: "middleware_call h eng mw req = (res, tr, mw')"
  shows "prefix (phases tr) six_phases \<and>
     ((\<exists>r. res = Inr r) \<and> \<not> disruptive_at eng tr \<longrightarrow> phases tr = six_phases) \<and>
     count_list tr GetResponse =
       (if fst (process_request h eng req ([], mw)) = Inr None then 1 else 0) \<and>
     (\<forall>a b. tr = a @ GetResponse # b \<longrightarrow>
        phases a = [Connection, URI, RequestHeaders, RequestBody] \<and>
        prefix (phases b) [ResponseHeaders, ResponseBody] \<and>
        (\<forall>q rest. a = q @ Intervention # rest \<longrightarrow> \<not> disruptive_at eng (q @ [Intervention])))"
  using run
proof (cases rule: run_cases)
  case (raised e)
  then show ?thesis by (simp add: process_request_error)
next
  case (returned a pt n sp)
  let ?conn = "ProcessConnection a pt n sp"
  let ?cps = "checkpoints h req ?conn (get_response mw req)"
  have order: "prefix (phases tr) six_phases"
    unfolding returned(2) by (rule final_trace_phases)
  have complete: "phases tr = six_phases" if "\<not> disruptive_at eng tr"
    using that final_trace_unblocked [of eng h ?cps]
      final_trace_complete [of h eng req a pt n sp "get_response mw req"]
    unfolding returned(2) by simp
  have count: "count_list tr GetResponse =
      (if fst (process_request h eng req ([], mw)) = Inr None then 1 else 0)"
    unfolding returned(2) final_trace_count
    by (simp add: process_request_shape [OF returned(1)])
  have position: "phases x = [Connection, URI, RequestHeaders, RequestBody] \<and>
        prefix (phases y) [ResponseHeaders, ResponseBody] \<and>
        (\<forall>q rest. x = q @ Intervention # rest \<longrightarrow> \<not> disruptive_at eng (q @ [Intervention]))"
    if split: "tr = x @ GetResponse # y" for x y
  proof -
    from count have "count_list tr GetResponse \<le> 1" by simp
    from split_at_single [OF this split]
    have x: "x = takeWhile (\<lambda>e. e \<noteq> GetResponse) tr"
      and y: "y = tl (dropWhile (\<lambda>e. e \<noteq> GetResponse) tr)" by simp_all
    from split have mem: "GetResponse \<in> set tr" by simp
    have h: "halts (\<lambda>t. blocking h eng t \<noteq> None) [] tr"
      unfolding returned(2) by (rule final_trace_halts)
    have quiet: "\<not> disruptive_at eng (q @ [Intervention])" if "x = q @ Intervention # rest" for q rest
    proof
      assume "disruptive_at eng (q @ [Intervention])"
      then have "blocking h eng ([] @ q @ [Intervention]) \<noteq> None" by (simp add: blocking_None)
      moreover from that split have "tr = q @ Intervention # (rest @ GetResponse # y)" by simp
      ultimately have "rest @ GetResponse # y = []" using halts_sound [OF h] by blast
      then show False by simp
    qed
    from mem show ?thesis
      unfolding x y returned(2)
      using quiet [unfolded x returned(2)]
      by (simp add: final_trace_before_handler final_trace_after_handler)
  qed
  from order complete count position show ?thesis by blast
qed

text \<open>The request for \<^verbatim>\<open>/index\<close> on the engine without verdicts runs the six phases.\<close>

theorem phases_run_in_order_example:
  "(\<exists>tr mw'.
      middleware_call django quiet_engine example_mw (example_request ''/index'') =
        (Inr (get_response example_mw (example_request ''/index'')), tr, mw') \<and>
      phases tr = six_phases \<and>
      count_list tr GetResponse = 1 \<and>
      phases (takeWhile (\<lambda>e. e \<noteq> GetResponse) tr) = [Connection, URI, RequestHeaders, RequestBody])"
proof -
  let ?a = "[ProcessConnection ''10.0.0.1'' 443 ''example.org'' 443, Intervention,
       ProcessURI ''/index'' ''GET'' ''1.1'', Intervention,
       AddRequestHeader ''HOST'' ''example.org'', ProcessRequestHeaders, Intervention,
       AppendRequestBody ''x=1'', ProcessRequestBody, Intervention]"
  let ?b = "[AddResponseHeader ''Content-Type'' ''text/plain'',
       ProcessResponseHeaders 200 ''HTTP/1.1'', Intervention,
       AppendResponseBody ''ok'', ProcessResponseBody, Intervention]"
  have run: "middleware_call django quiet_engine example_mw (example_request ''/index'') =
      (Inr (get_response example_mw (example_request ''/index'')), ?a @ GetResponse # ?b,
       example_mw)"
  proof -
    have "get_response example_mw (example_request ''/index'') =
        Response 200 [(''Content-Type'', ''text/plain'')] ''ok''"
      by (simp add: example_mw_def)
    with pass_run show ?thesis by simp
  qed
  have quiet: "\<not> disruptive_at quiet_engine t" for t
    by (simp add: disruptive_at_def quiet_engine_def)
  from phases_run_in_order [OF run] quiet
  have "phases (?a @ GetResponse # ?b) = six_phases \<and>
      count_list (?a @ GetResponse # ?b) GetResponse =
        (if fst (process_request django quiet_engine (example_request ''/index'') ([], example_mw)) =
            Inr None then 1 else 0) \<and>
      phases ?a = [Connection, URI, RequestHeaders, RequestBody]"
    by blast
  then have "phases (?a @ GetResponse # ?b) = six_phases \<and>
      count_list (?a @ GetResponse # ?b) GetResponse = 1 \<and>
      phases (takeWhile (\<lambda>e. e \<noteq> GetResponse) (?a @ GetResponse # ?b)) =
        [Connection, URI, RequestHeaders, RequestBody]"
    by simp
  with run show ?thesis by blast
qed

subsection \<open>The pass-through\<close>

text \<open>
  C4. When a call of the middleware returns and no query of its history has a
  disruptive verdict, the value returned is the response of the wrapped handler itself,
  and the six phases have been executed.
\<close>

theorem undisturbed_request_returns_original_response:
  assumes run: "middleware_call h eng mw req = (Inr resp, tr, mw')"
    and quiet: "\<forall>p rest. tr = p @ Intervention # rest \<longrightarrow> \<not> disruptive_at eng (p @ [Intervention])"
  shows "resp = get_response mw req \<and> phases tr = six_phases"
  using run
proof (cases rule: run_cases)
  case (raised e)
  then show ?thesis by simp
next
  case (returned a pt n sp)
  let ?cps = "checkpoints h req (ProcessConnection a pt n sp) (get_response mw req)"
  from final_trace_end [of h eng req "ProcessConnection a pt n sp" "get_response mw req"]
    returned(2)
  have last: "tr = butlast tr @ Intervention # []" by (metis append_butlast_last_id)
  with quiet have "\<not> disruptive_at eng (butlast tr @ [Intervention])" by blast
  with last have "\<not> disruptive_at eng tr" by simp
  then have "first_block h eng ?cps = None"
    using final_trace_unblocked [of eng h ?cps] returned(2) by simp
  with returned final_trace_complete [of h eng req a pt n sp "get_response mw req"]
  show ?thesis by simp
qed

text \<open>The request for \<^verbatim>\<open>/index\<close>: the handler's response comes back as it is.\<close>

theorem undisturbed_request_returns_original_response_example:
  "fst (middleware_call django quiet_engine example_mw (example_request ''/index'')) =
     Inr (Response 200 [(''Content-Type'', ''text/plain'')] ''ok'') \<and>
   get_response example_mw (example_request ''/index'') =
     Response 200 [(''Content-Type'', ''text/plain'')] ''ok'' \<and>
   phases (fst (snd (middleware_call django quiet_engine example_mw (example_request ''/index'')))) =
     six_phases"
proof -
  have quiet: "\<not> disruptive_at quiet_engine t" for t
    by (simp add: disruptive_at_def quiet_engine_def)
  have "get_response example_mw (example_request ''/index'') =
      Response 200 [(''Content-Type'', ''text/plain'')] ''ok''"
    by (simp add: example_mw_def)
  with undisturbed_request_returns_original_response [OF pass_run] quiet
  show ?thesis by (simp add: pass_run)
qed

subsection \<open>The connection phase\<close>

text \<open>
  C9. The first call on the transaction is \<^verbatim>\<open>processConnection\<close> with
  \<^verbatim>\<open>META['REMOTE_ADDR']\<close>, \<^verbatim>\<open>int(request.get_port())\<close>, \<^verbatim>\<open>META['SERVER_NAME']\<close> and
  \<^verbatim>\<open>int(META['SERVER_PORT'])\<close>. The second argument is not the client's port: for the
  request of a client on port 54321 to the server on port 443 the middleware submits
  443 as the client port and again as the server port.
\<close>

theorem connection_phase_submits_request_port:
  "map_of (META (example_request ''/index'')) ''REMOTE_PORT'' = Some ''54321'' \<and>
   map_of (META (example_request ''/index'')) ''SERVER_PORT'' = Some ''443'' \<and>
   get_port (example_request ''/index'') = ''443'' \<and>
   hd (fst (snd (middleware_call django quiet_engine example_mw (example_request ''/index'')))) =
     ProcessConnection ''10.0.0.1'' 443 ''example.org'' 443"
proof -
  have "hd (fst (snd (middleware_call django quiet_engine example_mw
      (example_request ''/index'')))) = ProcessConnection ''10.0.0.1'' 443 ''example.org'' 443"
    by (simp add: pass_run)
  then show ?thesis by (simp add: example_request_def example_meta_def)
qed

section \<open>The running total\<close>

lemma gained_append:
  "gained eng hist (xs @ ys) = gained eng hist xs + gained eng (hist @ xs) ys"
  by (induction xs arbitrary: hist) simp_all

lemma gained_nonneg: "0 \<le> gained eng hist ls"
  by (induction ls arbitrary: hist) simp_all

lemma added_gained: "added (attempts eng hist ps) = gained eng hist (map LoadFromUri ps)"
  by (induction ps arbitrary: hist) (simp_all add: added_def loaded_def)

lemma step_gain:
  "\<exists>new. rules (step h eng op mw) = rules mw @ new \<and>
     priv_rules_count (step h eng op mw) = priv_rules_count mw + gained eng (rules mw) new"
proof (cases op)
  case (LoadRuleFiles files)
  then show ?thesis
    by (simp add: step_def load_rule_files_def Let_def load_patterns_spec added_gained)
next
  case (LoadRules inline)
  show ?thesis
  proof (cases "inline = None \<or> inline = Some []")
    case True
    then show ?thesis using LoadRules by (auto simp: step_def load_rules_def)
  next
    case False
    then obtain t where "inline = Some t" "t \<noteq> []" by auto
    then show ?thesis using LoadRules
      by (intro exI [of _ "[Load t]"]) (simp add: step_def load_rules_def Let_def warning_def)
  qed
next
  case (Call req)
  then show ?thesis by (simp add: step_def middleware_call_frame)
qed

lemma run_gain:
  "\<exists>new. rules (run h eng ops mw) = rules mw @ new \<and>
     priv_rules_count (run h eng ops mw) = priv_rules_count mw + gained eng (rules mw) new"
proof (induction ops arbitrary: mw)
  case Nil
  show ?case by (simp add: run_def)
next
  case (Cons op ops)
  obtain n1 where n1: "rules (step h eng op mw) = rules mw @ n1"
    "priv_rules_count (step h eng op mw) = priv_rules_count mw + gained eng (rules mw) n1"
    using step_gain by blast
  obtain n2 where n2: "rules (run h eng ops (step h eng op mw)) = rules (step h eng op mw) @ n2"
    "priv_rules_count (run h eng ops (step h eng op mw)) =
       priv_rules_count (step h eng op mw) + gained eng (rules (step h eng op mw)) n2"
    using Cons.IH by blast
  have "run h eng (op # ops) mw = run h eng ops (step h eng op mw)" by (simp add: run_def)
  with n1 n2 show ?case
    by (intro exI [of _ "n1 @ n2"]) (simp add: gained_append)
qed

text \<open>
  C8. Over any sequence of operations on a middleware object (loading rule files,
  loading inline rules, processing requests) the running total never decreases.
  Processing a request changes neither the total nor the rules object. After any
  sequence of operations the total has grown by exactly the counts of the loads the
  engine accepted among the loads made since: a load that returned a negative count
  adds nothing.
\<close>

theorem rules_count_never_decreases:
  "rules_count (run h eng ops mw) \<le> rules_count (run h eng (ops @ later) mw) \<and>
   rules_count (step h eng (Call req) mw) = rules_count mw \<and>
   rules (step h eng (Call req) mw) = rules mw \<and>
   rules (run h eng ops mw) = rules mw @ drop (length (rules mw)) (rules (run h eng ops mw)) \<and>
   rules_count (run h eng ops mw) =
     rules_count mw + gained eng (rules mw) (drop (length (rules mw)) (rules (run h eng ops mw)))"
proof -
  obtain new where new: "rules (run h eng ops mw) = rules mw @ new"
    "priv_rules_count (run h eng ops mw) = priv_rules_count mw + gained eng (rules mw) new"
    using run_gain by blast
  have app: "run h eng (ops @ later) mw = run h eng later (run h eng ops mw)"
    by (simp add: run_def)
  obtain new' where "priv_rules_count (run h eng later (run h eng ops mw)) =
      priv_rules_count (run h eng ops mw) + gained eng (rules (run h eng ops mw)) new'"
    using run_gain by blast
  then have mono: "rules_count (run h eng ops mw) \<le> rules_count (run h eng (ops @ later) mw)"
    using gained_nonneg [of eng "rules (run h eng ops mw)" new']
    by (simp add: app rules_count_def)
  have call: "rules_count (step h eng (Call req) mw) = rules_count mw"
    "rules (step h eng (Call req) mw) = rules mw"
    by (simp_all add: step_def rules_count_def middleware_call_frame)
  from new have "drop (length (rules mw)) (rules (run h eng ops mw)) = new" by simp
  with new mono call show ?thesis by (simp add: rules_count_def)
qed

end
